theory Spec2Isabelle
  imports Main
begin

section \<open>Color-Rain: the animated grid of src/src/App.jsx\<close>

text \<open>
  The component keeps a grid of fading cells, a list of falling drops, a queue of columns
  waiting for a drop and an index into a precomputed colour spectrum. Every 100 ms the
  interval callback computes the next grid from the previous one. The definitions below
  follow App.jsx function by function; numbers that the code keeps non-negative (grid
  dimensions, rows, columns, indices) are \<open>nat\<close>, colour components and life counters
  are \<open>int\<close>.
\<close>

subsection \<open>Constants\<close>

definition DROP_LIFE_SPAN :: nat where
  "DROP_LIFE_SPAN = 7"

definition MIN_DIMENSION :: int where
  "MIN_DIMENSION = 1"

definition MAX_DIMENSION :: int where
  "MAX_DIMENSION = 25"

subsection \<open>generateSmoothSpectrum (App.jsx, lines 5-39)\<close>

type_synonym color = "int \<times> int \<times> int"

text \<open>
  \<open>Math.floor(i * (255 / stepsPerSegment))\<close>. The source computes the quotient and the
  product in double precision; the model computes the floor of the exact product. For the
  one call the program makes (120 steps, 20 per segment) the factor 12.75 and every
  product are exact in binary, so both agree there, as they do at 1 step per segment.
  Where \<open>255 / stepsPerSegment\<close> is not exact in binary the source's rounded product can
  fall just below an integer and its floor be one less than the value here (at 630
  steps, for instance). Lengths do not depend on it.
\<close>

definition ramp :: "nat \<Rightarrow> nat \<Rightarrow> int" where
  "ramp stepsPerSegment i = int ((i * 255) div stepsPerSegment)"

definition generateSmoothSpectrum :: "nat \<Rightarrow> color list" where
  "generateSmoothSpectrum numSteps =
     (let stepsPerSegment = max 1 (numSteps div 6);
          is = [0..<stepsPerSegment];
          colors =
              map (\<lambda>i. (255, ramp stepsPerSegment i, 0)) is
            @ map (\<lambda>i. (255 - ramp stepsPerSegment i, 255, 0)) is
            @ map (\<lambda>i. (0, 255, ramp stepsPerSegment i)) is
            @ map (\<lambda>i. (0, 255 - ramp stepsPerSegment i, 255)) is
            @ map (\<lambda>i. (ramp stepsPerSegment i, 0, 255)) is
            @ map (\<lambda>i. (255, 0, 255 - ramp stepsPerSegment i)) is
      in take numSteps colors)"

definition SMOOTH_VIBGYOR_COLORS :: "color list" where
  "SMOOTH_VIBGYOR_COLORS = generateSmoothSpectrum 120"

subsection \<open>The dimension inputs (App.jsx, lines 240-259)\<close>

text \<open>
  \<open>parseInt\<close> yields an integer or NaN; \<open>None\<close> stands for NaN. In
  \<open>value || MIN_DIMENSION\<close> both NaN and 0 are falsy.
\<close>

definition clampDimension :: "int option \<Rightarrow> int" where
  "clampDimension v =
     min (max (case v of None \<Rightarrow> MIN_DIMENSION
                       | Some n \<Rightarrow> if n = 0 then MIN_DIMENSION else n)
              MIN_DIMENSION)
         MAX_DIMENSION"

text \<open>
  The handlers apply \<open>parseInt\<close> to the text of the field, \<open>e.target.value\<close>.
  \<open>parseInt\<close> is the language's function, not code of the repository; it is written out
  here as ECMAScript defines it for a call without radix: skip leading white space, take
  an optional sign, take the prefix \<open>0x\<close> or \<open>0X\<close> as radix 16 and radix 10 otherwise,
  read the longest run of digits of that radix, and give NaN when the run is empty.
  Whatever follows the digits is ignored, so a decimal point or an exponent ends the
  number. A \<open>string\<close> holds 8-bit characters, so of the white space only the characters
  below 256 are listed. The source's result is a double: an integer too large for one is
  rounded or becomes Infinity, which the clamp sends to 25 like the exact integer.
\<close>

definition isStrWhiteSpace :: "char \<Rightarrow> bool" where
  "isStrWhiteSpace c =
     (c \<in> set [CHR 0x09, CHR 0x0A, CHR 0x0B, CHR 0x0C, CHR 0x0D, CHR '' '', CHR 0xA0])"

text \<open>The value of a digit; 36 for a character that is no digit of any radix.\<close>

definition digitValue :: "char \<Rightarrow> nat" where
  "digitValue c =
     (case map_of
        (zip ''0123456789abcdefghijklmnopqrstuvwxyz'' [0..<36] @
         zip ''ABCDEFGHIJKLMNOPQRSTUVWXYZ'' [10..<36]) c of
        Some v \<Rightarrow> v
      | None \<Rightarrow> 36)"

definition parseInt :: "string \<Rightarrow> int option" where
  "parseInt inputString =
     (let S = dropWhile isStrWhiteSpace inputString;
          sign = (if S \<noteq> [] \<and> hd S = CHR ''-'' then - 1 else 1);
          S1 = (if S \<noteq> [] \<and> (hd S = CHR ''+'' \<or> hd S = CHR ''-'') then tl S else S);
          stripPrefix = (take 2 S1 = ''0x'' \<or> take 2 S1 = ''0X'');
          R = (if stripPrefix then 16 else 10);
          S2 = (if stripPrefix then drop 2 S1 else S1);
          Z = takeWhile (\<lambda>c. digitValue c < R) S2
      in if Z = [] then None
         else Some (sign * int (foldl (\<lambda>a c. a * R + digitValue c) 0 Z)))"


subsection \<open>Cells, drops and the animation state\<close>

text \<open>
  A grid cell is \<open>null\<close>, or an object. Objects come from two places: the trail paint
  writes \<open>{r, g, b, life}\<close>, and the copy \<open>{ ...prevGridState[r][c] }\<close> writes a fresh
  object with the own properties of the old cell, which is the empty object \<open>{}\<close> when the
  old cell is \<open>null\<close>.
\<close>

datatype cell = Null | EmptyObject | Painted int int int int

type_synonym grid = "cell list list"

record drop =
  col :: nat
  row :: nat
  color :: color

record anim =
  gridRows :: nat
  gridCols :: nat
  gridState :: grid
  activeDrops :: "drop list"
  currentSpawningColorIndex :: nat
  nextColorSpawnQueue :: "nat list"

subsection \<open>shuffleArray and generateNewSpawnColumns (App.jsx, lines 81-103)\<close>

text \<open>
  \<open>Math.random\<close> is the only source of non-determinism. The index
  \<open>j = Math.floor(Math.random() * (i + 1))\<close> drawn at position \<open>i\<close> ranges over
  \<open>0..i\<close>; the model takes the draws as a parameter \<open>rnd\<close> and reduces \<open>rnd i\<close> into
  that range. The loop runs \<open>i\<close> from \<open>length - 1\<close> down to 1 and swaps in place.
\<close>

definition shuffleArray :: "(nat \<Rightarrow> nat) \<Rightarrow> 'a list \<Rightarrow> 'a list" where
  "shuffleArray rnd array =
     fold (\<lambda>i a. let j = rnd i mod (i + 1) in a[i := a ! j, j := a ! i])
          (rev [1..<length array]) array"

definition generateNewSpawnColumns :: "(nat \<Rightarrow> nat) \<Rightarrow> nat \<Rightarrow> nat list" where
  "generateNewSpawnColumns rnd cols =
     (let minSpawnCol = 0;
          maxSpawnCol = max 0 (int cols - 1);
          dynamicNumDrops = max 1 (cols * 1 div 4);
          availableCols = map (\<lambda>i. minSpawnCol + i) [0..<nat (maxSpawnCol - int minSpawnCol + 1)];
          shuffledCols = shuffleArray rnd availableCols
      in take (min dynamicNumDrops (length availableCols)) shuffledCols)"

subsection \<open>The tick callback (App.jsx, lines 122-214)\<close>

definition emptyGrid :: "nat \<Rightarrow> nat \<Rightarrow> grid" where
  "emptyGrid rows cols = replicate rows (replicate cols Null)"

text \<open>The object spread \<open>{ ...x }\<close> of a cell.\<close>

fun spread :: "cell \<Rightarrow> cell" where
  "spread Null = EmptyObject"
| "spread EmptyObject = EmptyObject"
| "spread (Painted cr cg cb l) = Painted cr cg cb l"

definition setCell :: "grid \<Rightarrow> nat \<Rightarrow> nat \<Rightarrow> cell \<Rightarrow> grid" where
  "setCell gr i j v = gr[i := (gr ! i)[j := v]]"

text \<open>Lines 125-130: a new grid of the current dimensions, filled from the old one.\<close>

definition copyGrid :: "nat \<Rightarrow> nat \<Rightarrow> grid \<Rightarrow> grid" where
  "copyGrid rows cols prevGridState =
     fold (\<lambda>i gr. fold (\<lambda>j gr. setCell gr i j (spread (prevGridState ! i ! j)))
                       [0..<min (length (prevGridState ! i)) cols] gr)
          [0..<min (length prevGridState) rows]
          (emptyGrid rows cols)"

text \<open>
  Lines 135-139, for one cell. On \<open>{}\<close> the field \<open>life\<close> is undefined, both comparisons
  are false and nothing is written; on \<open>null\<close> both conjunctions are falsy.
\<close>

fun decayCell :: "cell \<Rightarrow> cell" where
  "decayCell (Painted cr cg cb l) =
     (if l > 0 then Painted cr cg cb (l - 1)
      else if l \<le> 0 then Null
      else Painted cr cg cb l)"
| "decayCell EmptyObject = EmptyObject"
| "decayCell Null = Null"

text \<open>
  Lines 133-141. Where the source writes nothing (\<open>null\<close> and \<open>{}\<close>) the cell's own value
  is written back.
\<close>

definition decayGrid :: "nat \<Rightarrow> nat \<Rightarrow> grid \<Rightarrow> grid" where
  "decayGrid rows cols newGridState =
     fold (\<lambda>i gr. fold (\<lambda>j gr. setCell gr i j (decayCell (gr ! i ! j))) [0..<cols] gr)
          [0..<rows] newGridState"

text \<open>
  Line 161: the rows visited by the trail loop, from the head upwards, at most
  \<open>DROP_LIFE_SPAN\<close> of them and none above row 0.
\<close>

definition trailRows :: "drop \<Rightarrow> nat list" where
  "trailRows d =
     rev [nat (max 0 (int (row d) - int DROP_LIFE_SPAN + 1))..<Suc (row d)]"

text \<open>
  Lines 161-173. The tests \<open>r >= 0\<close> and \<open>drop.col >= 0\<close> of the guard hold for every
  \<open>nat\<close> and are left out.
\<close>

definition paintTrail :: "nat \<Rightarrow> nat \<Rightarrow> drop \<Rightarrow> grid \<Rightarrow> grid" where
  "paintTrail rows cols d newGridState =
     fold (\<lambda>i gr.
             if i < rows \<and> col d < cols then
               (let lifeRemaining = int DROP_LIFE_SPAN - (int (row d) - int i)
                in setCell gr i (col d)
                     (Painted (fst (color d)) (fst (snd (color d))) (snd (snd (color d)))
                        lifeRemaining))
             else gr)
          (trailRows d) newGridState"

text \<open>
  Lines 151-180: the body of \<open>currentActiveDrops.forEach\<close>, on the three variables it
  updates: the midpoint flag, the new grid and \<open>updatedDrops\<close>. The comparison
  \<open>drop.color === SMOOTH_VIBGYOR_COLORS[...]\<close> is between references to entries of the
  spectrum; every drop's colour is such a reference and the entries are pairwise
  different as values (lemma \<open>spectrum_distinct\<close>), so it is equality of values.
\<close>

definition dropStep ::
  "nat \<Rightarrow> nat \<Rightarrow> color \<Rightarrow> drop \<Rightarrow> bool \<times> grid \<times> drop list \<Rightarrow> bool \<times> grid \<times> drop list" where
  "dropStep rows cols spawning d acc =
     (case acc of (anyCurrentSpawningColorDropPastHalfway, newGridState, updatedDrops) \<Rightarrow>
       (let newRow = row d + 1;
            halfwayPoint = rows div 2
        in (if color d = spawning \<and> row d \<ge> halfwayPoint then True
            else anyCurrentSpawningColorDropPastHalfway,
            paintTrail rows cols d newGridState,
            if newRow < rows + DROP_LIFE_SPAN \<and> col d < cols
            then updatedDrops @ [d\<lparr>row := newRow\<rparr>]
            else updatedDrops)))"

definition dropPhase ::
  "nat \<Rightarrow> nat \<Rightarrow> color \<Rightarrow> drop list \<Rightarrow> grid \<Rightarrow> bool \<times> grid \<times> drop list" where
  "dropPhase rows cols spawning currentActiveDrops newGridState =
     fold (dropStep rows cols spawning) currentActiveDrops (False, newGridState, [])"

text \<open>Lines 190-196: the colour advance, on the index and the queue.\<close>

definition colorAdvance :: "(nat \<Rightarrow> nat) \<Rightarrow> nat \<Rightarrow> bool \<Rightarrow> nat \<times> nat list \<Rightarrow> nat \<times> nat list" where
  "colorAdvance rnd cols anyPastHalfway iq =
     (case iq of (idx, queue) \<Rightarrow>
        if anyPastHalfway \<and> length queue = 0
        then ((idx + 1) mod length SMOOTH_VIBGYOR_COLORS, generateNewSpawnColumns rnd cols)
        else (idx, queue))"

text \<open>Lines 199-211: one spawn per tick, on the drop list and the queue.\<close>

definition spawn :: "nat \<Rightarrow> nat \<Rightarrow> drop list \<Rightarrow> nat list \<Rightarrow> drop list \<times> nat list" where
  "spawn cols idx drops queue =
     (case queue of
        [] \<Rightarrow> (drops, [])
      | colToSpawn # rest \<Rightarrow>
          (if colToSpawn < cols
           then drops @ [\<lparr>col = colToSpawn, row = 0, color = SMOOTH_VIBGYOR_COLORS ! idx\<rparr>]
           else drops,
           rest))"

definition tick :: "(nat \<Rightarrow> nat) \<Rightarrow> anim \<Rightarrow> anim" where
  "tick rnd st =
     (let rows = gridRows st;
          cols = gridCols st;
          newGridState = decayGrid rows cols (copyGrid rows cols (gridState st));
          phase = dropPhase rows cols
                    (SMOOTH_VIBGYOR_COLORS ! currentSpawningColorIndex st)
                    (activeDrops st) newGridState;
          iq = colorAdvance rnd cols (fst phase)
                 (currentSpawningColorIndex st, nextColorSpawnQueue st);
          dq = spawn cols (fst iq) (snd (snd phase)) (snd iq)
      in st\<lparr>gridState := fst (snd phase),
            activeDrops := fst dq,
            currentSpawningColorIndex := fst iq,
            nextColorSpawnQueue := snd dq\<rparr>)"

subsection \<open>The effect and the dimension handlers (App.jsx, lines 107-116, 240-259)\<close>

text \<open>
  The effect body: runs on mount and whenever \<open>gridRows\<close> or \<open>gridCols\<close> changed. It
  reads nothing of the old animation state.
\<close>

definition effectReset :: "(nat \<Rightarrow> nat) \<Rightarrow> nat \<Rightarrow> nat \<Rightarrow> anim" where
  "effectReset rnd rows cols =
     \<lparr>gridRows = rows, gridCols = cols,
      gridState = emptyGrid rows cols,
      activeDrops = [],
      currentSpawningColorIndex = 0,
      nextColorSpawnQueue = generateNewSpawnColumns rnd cols\<rparr>"

text \<open>
  \<open>setGridRows\<close> and \<open>setGridCols\<close> with the clamped input; a state set to the value it
  already has does not re-run the effect (its dependencies are unchanged).
\<close>

definition onRowsChange :: "(nat \<Rightarrow> nat) \<Rightarrow> int option \<Rightarrow> anim \<Rightarrow> anim" where
  "onRowsChange rnd v st =
     (let rows = nat (clampDimension v)
      in if rows = gridRows st then st else effectReset rnd rows (gridCols st))"

definition onColsChange :: "(nat \<Rightarrow> nat) \<Rightarrow> int option \<Rightarrow> anim \<Rightarrow> anim" where
  "onColsChange rnd v st =
     (let cols = nat (clampDimension v)
      in if cols = gridCols st then st else effectReset rnd (gridRows st) cols)"

text \<open>The states the component can be in: mounted at 15 by 20, then ticks and input events.\<close>

inductive reachable :: "anim \<Rightarrow> bool" where
  mounted: "reachable (effectReset rnd 15 20)"
| ticked: "reachable st \<Longrightarrow> reachable (tick rnd st)"
| rowsChanged: "reachable st \<Longrightarrow> reachable (onRowsChange rnd v st)"
| colsChanged: "reachable st \<Longrightarrow> reachable (onColsChange rnd v st)"

subsection \<open>The tick with every grid access checked\<close>

text \<open>
  The same callback, with each indexing of \<open>prevGridState\<close> and \<open>newGridState\<close> made
  explicit: an index outside the array at hand is the error \<open>OutOfRange\<close>. The loops
  stop at the first error.
\<close>

datatype error = OutOfRange

definition rowLength :: "grid \<Rightarrow> nat \<Rightarrow> error + nat" where
  "rowLength gr i = (if i < length gr then Inr (length (gr ! i)) else Inl OutOfRange)"

definition readCell :: "grid \<Rightarrow> nat \<Rightarrow> nat \<Rightarrow> error + cell" where
  "readCell gr i j =
     (if i < length gr \<and> j < length (gr ! i) then Inr (gr ! i ! j) else Inl OutOfRange)"

definition writeCell :: "grid \<Rightarrow> nat \<Rightarrow> nat \<Rightarrow> cell \<Rightarrow> error + grid" where
  "writeCell gr i j v =
     (if i < length gr \<and> j < length (gr ! i) then Inr (setCell gr i j v) else Inl OutOfRange)"

fun foldE :: "('a \<Rightarrow> 's \<Rightarrow> error + 's) \<Rightarrow> 'a list \<Rightarrow> 's \<Rightarrow> error + 's" where
  "foldE f [] s = Inr s"
| "foldE f (x # xs) s = (case f x s of Inl e \<Rightarrow> Inl e | Inr s' \<Rightarrow> foldE f xs s')"

definition copyGridChecked :: "nat \<Rightarrow> nat \<Rightarrow> grid \<Rightarrow> error + grid" where
  "copyGridChecked rows cols prevGridState =
     foldE (\<lambda>i gr.
              case rowLength prevGridState i of
                Inl e \<Rightarrow> Inl e
              | Inr n \<Rightarrow>
                  foldE (\<lambda>j gr. case readCell prevGridState i j of
                                  Inl e \<Rightarrow> Inl e
                                | Inr v \<Rightarrow> writeCell gr i j (spread v))
                        [0..<min n cols] gr)
           [0..<min (length prevGridState) rows]
           (emptyGrid rows cols)"

text \<open>The decay loop reads the cell; it writes only where the cell has a \<open>life\<close>.\<close>

definition decayGridChecked :: "nat \<Rightarrow> nat \<Rightarrow> grid \<Rightarrow> error + grid" where
  "decayGridChecked rows cols newGridState =
     foldE (\<lambda>i gr.
              foldE (\<lambda>j gr. case readCell gr i j of
                              Inl e \<Rightarrow> Inl e
                            | Inr (Painted cr cg cb l) \<Rightarrow>
                                writeCell gr i j (decayCell (Painted cr cg cb l))
                            | Inr v \<Rightarrow> Inr gr)
                    [0..<cols] gr)
           [0..<rows] newGridState"

definition paintTrailChecked :: "nat \<Rightarrow> nat \<Rightarrow> drop \<Rightarrow> grid \<Rightarrow> error + grid" where
  "paintTrailChecked rows cols d newGridState =
     foldE (\<lambda>i gr.
              if i < rows \<and> col d < cols then
                (let lifeRemaining = int DROP_LIFE_SPAN - (int (row d) - int i)
                 in writeCell gr i (col d)
                      (Painted (fst (color d)) (fst (snd (color d))) (snd (snd (color d)))
                         lifeRemaining))
              else Inr gr)
           (trailRows d) newGridState"

definition dropStepChecked ::
  "nat \<Rightarrow> nat \<Rightarrow> color \<Rightarrow> drop \<Rightarrow> bool \<times> grid \<times> drop list
     \<Rightarrow> error + bool \<times> grid \<times> drop list" where
  "dropStepChecked rows cols spawning d acc =
     (case acc of (anyCurrentSpawningColorDropPastHalfway, newGridState, updatedDrops) \<Rightarrow>
       (case paintTrailChecked rows cols d newGridState of
          Inl e \<Rightarrow> Inl e
        | Inr painted \<Rightarrow>
            (let newRow = row d + 1;
                 halfwayPoint = rows div 2
             in Inr (if color d = spawning \<and> row d \<ge> halfwayPoint then True
                     else anyCurrentSpawningColorDropPastHalfway,
                     painted,
                     if newRow < rows + DROP_LIFE_SPAN \<and> col d < cols
                     then updatedDrops @ [d\<lparr>row := newRow\<rparr>]
                     else updatedDrops))))"

definition tickChecked :: "(nat \<Rightarrow> nat) \<Rightarrow> anim \<Rightarrow> error + anim" where
  "tickChecked rnd st =
     (let rows = gridRows st; cols = gridCols st
      in case copyGridChecked rows cols (gridState st) of
           Inl e \<Rightarrow> Inl e
         | Inr copied \<Rightarrow>
             (case decayGridChecked rows cols copied of
                Inl e \<Rightarrow> Inl e
              | Inr decayed \<Rightarrow>
                  (case foldE (dropStepChecked rows cols
                                 (SMOOTH_VIBGYOR_COLORS ! currentSpawningColorIndex st))
                          (activeDrops st) (False, decayed, []) of
                     Inl e \<Rightarrow> Inl e
                   | Inr phase \<Rightarrow>
                       (let iq = colorAdvance rnd cols (fst phase)
                                   (currentSpawningColorIndex st, nextColorSpawnQueue st);
                            dq = spawn cols (fst iq) (snd (snd phase)) (snd iq)
                        in Inr (st\<lparr>gridState := fst (snd phase),
                                    activeDrops := fst dq,
                                    currentSpawningColorIndex := fst iq,
                                    nextColorSpawnQueue := snd dq\<rparr>)))))"

subsection \<open>Notions used to state the properties\<close>

text \<open>A grid of exactly \<open>rows\<close> rows of \<open>cols\<close> cells.\<close>

definition wfGrid :: "nat \<Rightarrow> nat \<Rightarrow> grid \<Rightarrow> bool" where
  "wfGrid rows cols gr = (length gr = rows \<and> (\<forall>i<rows. length (gr ! i) = cols))"

text \<open>The object the trail loop of drop \<open>d\<close> writes at row \<open>i\<close>, and where it writes.\<close>

definition trailCell :: "drop \<Rightarrow> nat \<Rightarrow> cell" where
  "trailCell d i =
     Painted (fst (color d)) (fst (snd (color d))) (snd (snd (color d)))
       (int DROP_LIFE_SPAN - (int (row d) - int i))"

definition paints :: "drop \<Rightarrow> nat \<Rightarrow> nat \<Rightarrow> bool" where
  "paints d i j = (j = col d \<and> i \<in> set (trailRows d))"

text \<open>The value of the midpoint flag after the \<open>forEach\<close>, and the drops it keeps.\<close>

definition midpointFlag :: "anim \<Rightarrow> bool" where
  "midpointFlag st =
     (\<exists>d\<in>set (activeDrops st).
        color d = SMOOTH_VIBGYOR_COLORS ! currentSpawningColorIndex st \<and>
        row d \<ge> gridRows st div 2)"

definition survivors :: "anim \<Rightarrow> drop list" where
  "survivors st =
     map (\<lambda>d. d\<lparr>row := row d + 1\<rparr>)
       (filter (\<lambda>d. row d + 1 < gridRows st + DROP_LIFE_SPAN \<and> col d < gridCols st)
          (activeDrops st))"

text \<open>A cell that carries a life carries one between 0 and \<open>DROP_LIFE_SPAN\<close>.\<close>

fun cellLifeOk :: "cell \<Rightarrow> bool" where
  "cellLifeOk (Painted cr cg cb l) = (0 \<le> l \<and> l \<le> int DROP_LIFE_SPAN)"
| "cellLifeOk EmptyObject = True"
| "cellLifeOk Null = True"

definition gridLifeOk :: "grid \<Rightarrow> bool" where
  "gridLifeOk gr = (\<forall>cells\<in>set gr. \<forall>c\<in>set cells. cellLifeOk c)"

text \<open>The animation right after a reset to \<open>rows\<close> by \<open>cols\<close>.\<close>

definition resetTo :: "nat \<Rightarrow> nat \<Rightarrow> anim \<Rightarrow> bool" where
  "resetTo rows cols st =
     (gridRows st = rows \<and> gridCols st = cols \<and>
      gridState st = replicate rows (replicate cols Null) \<and>
      activeDrops st = [] \<and>
      currentSpawningColorIndex st = 0 \<and>
      length (nextColorSpawnQueue st) = max 1 (cols div 4) \<and>
      distinct (nextColorSpawnQueue st) \<and>
      (\<forall>c\<in>set (nextColorSpawnQueue st). c < cols))"

subsection \<open>Concrete runs\<close>

text \<open>
  With the draws \<open>rnd = id\<close> every swap of the shuffle exchanges a position with itself,
  so the queue is \<open>[0, 1, ...]\<close>. The runs below start from the mounted component and
  shrink the grid through the input handlers.
\<close>

definition run1x1 :: anim where
  "run1x1 = onColsChange id (Some 1) (onRowsChange id (Some 1) (effectReset id 15 20))"

definition run15x1 :: anim where
  "run15x1 = onColsChange id (Some 1) (effectReset id 15 20)"

definition decayExample :: anim where
  "decayExample =
     \<lparr>gridRows = 1, gridCols = 2,
      gridState = [[Painted 255 0 0 3, Painted 255 0 0 0]],
      activeDrops = [],
      currentSpawningColorIndex = 0,
      nextColorSpawnQueue = []\<rparr>"

section \<open>Properties of the spectrum and of the dimension clamp\<close>

lemma generateSmoothSpectrum_length:
  "length (generateSmoothSpectrum n) = min n (6 * max 1 (n div 6))"
  unfolding generateSmoothSpectrum_def Let_def length_take
  by (simp add: min.commute) arith

lemma spectrum_length: "length SMOOTH_VIBGYOR_COLORS = 120"
  by (simp add: SMOOTH_VIBGYOR_COLORS_def generateSmoothSpectrum_length)

lemma spectrum_first_segment:
  "i < 20 \<Longrightarrow> SMOOTH_VIBGYOR_COLORS ! i = (255, int ((i * 255) div 20), 0)"
  by (simp add: SMOOTH_VIBGYOR_COLORS_def generateSmoothSpectrum_def Let_def ramp_def nth_append)

lemma spectrum_0: "SMOOTH_VIBGYOR_COLORS ! 0 = (255, 0, 0)"
  by (simp add: spectrum_first_segment)

text \<open>
  The 120 entries are pairwise different, which is what lets the model compare drop
  colours by value.
\<close>

lemma ramp_bounds: "i < 20 \<Longrightarrow> 0 \<le> ramp 20 i \<and> ramp 20 i < 255"
  by (simp add: ramp_def)

lemma ramp_strict_mono:
  assumes "i < j"
  shows "ramp 20 i < ramp 20 j"
proof -
  have "i * 255 + 12 * 20 \<le> j * 255" using assms by simp
  then have "(i * 255 + 12 * 20) div 20 \<le> (j * 255) div 20" by (rule div_le_mono)
  moreover have "(i * 255 + 12 * 20) div 20 = (i * 255) div 20 + 12"
    by (simp only: div_mult_self1[of 20 "i * 255" 12] div_mult_self3 zero_neq_numeral not_False_eq_True)
  ultimately show ?thesis by (simp add: ramp_def)
qed

lemma ramp_inj: "ramp 20 i = ramp 20 j \<Longrightarrow> i = j"
  using ramp_strict_mono[of i j] ramp_strict_mono[of j i] by (cases i j rule: linorder_cases) auto

lemma spectrum_segments:
  "SMOOTH_VIBGYOR_COLORS =
       map (\<lambda>i. (255, ramp 20 i, 0)) [0..<20]
     @ map (\<lambda>i. (255 - ramp 20 i, 255, 0)) [0..<20]
     @ map (\<lambda>i. (0, 255, ramp 20 i)) [0..<20]
     @ map (\<lambda>i. (0, 255 - ramp 20 i, 255)) [0..<20]
     @ map (\<lambda>i. (ramp 20 i, 0, 255)) [0..<20]
     @ map (\<lambda>i. (255, 0, 255 - ramp 20 i)) [0..<20]"
  unfolding SMOOTH_VIBGYOR_COLORS_def generateSmoothSpectrum_def Let_def
  by simp

lemma spectrum_distinct: "distinct SMOOTH_VIBGYOR_COLORS"
proof -
  have b: "\<And>i. i < 20 \<Longrightarrow> ramp 20 i \<noteq> 255" using ramp_bounds by fastforce
  show ?thesis
    unfolding spectrum_segments
    by (auto simp: distinct_map inj_on_def b dest: ramp_inj)
qed

lemma clampDimension_cases:
  "clampDimension None = 1"
  "clampDimension (Some n) = (if n < 1 then 1 else if 25 < n then 25 else n)"
  by (simp_all add: clampDimension_def MIN_DIMENSION_def MAX_DIMENSION_def)

lemma clampDimension_range: "1 \<le> clampDimension v \<and> clampDimension v \<le> 25"
  by (cases v) (simp_all add: clampDimension_cases)

text \<open>\<open>parseInt\<close> on some entries.\<close>

lemmas parseInt_eval = parseInt_def Let_def isStrWhiteSpace_def digitValue_def upt_rec




lemma parseInt_negative: "parseInt ''-7'' = Some (- 7)"
  by (simp add: parseInt_eval)

lemma parseInt_letters: "parseInt ''abc'' = None"
  by (simp add: parseInt_eval)

lemma parseInt_fraction: "parseInt ''12.5'' = Some 12"
  by (simp add: parseInt_eval)

section \<open>The grid loops, cell by cell\<close>

lemma wfGrid_emptyGrid: "wfGrid rows cols (emptyGrid rows cols)"
  by (simp add: wfGrid_def emptyGrid_def)

lemma wfGrid_setCell: "wfGrid rows cols gr \<Longrightarrow> wfGrid rows cols (setCell gr i j v)"
  by (cases "i < length gr") (auto simp: wfGrid_def setCell_def nth_list_update)

lemma setCell_nth:
  "wfGrid rows cols gr \<Longrightarrow> i < rows \<Longrightarrow> j < cols \<Longrightarrow> i' < rows \<Longrightarrow> j' < cols \<Longrightarrow>
   setCell gr i j v ! i' ! j' = (if i' = i \<and> j' = j then v else gr ! i' ! j')"
  by (auto simp: wfGrid_def setCell_def nth_list_update)

lemma setCell_same: "setCell gr i j (gr ! i ! j) = gr"
  by (simp add: setCell_def)

text \<open>A row loop that rewrites each visited cell from its own old value.\<close>

lemma fold_row:
  "wfGrid rows cols gr \<Longrightarrow> i < rows \<Longrightarrow> distinct js \<Longrightarrow> \<forall>j\<in>set js. j < cols \<Longrightarrow>
   wfGrid rows cols (fold (\<lambda>j gr. setCell gr i j (F j (gr ! i ! j))) js gr) \<and>
   (\<forall>i'<rows. \<forall>j'<cols.
      fold (\<lambda>j gr. setCell gr i j (F j (gr ! i ! j))) js gr ! i' ! j' =
        (if i' = i \<and> j' \<in> set js then F j' (gr ! i' ! j') else gr ! i' ! j'))"
proof (induction js arbitrary: gr)
  case Nil
  then show ?case by simp
next
  case (Cons a js)
  let ?g1 = "setCell gr i a (F a (gr ! i ! a))"
  have wf1: "wfGrid rows cols ?g1" using Cons.prems(1) by (rule wfGrid_setCell)
  have a: "a < cols" "a \<notin> set js" "distinct js" "\<forall>j\<in>set js. j < cols"
    using Cons.prems by auto
  note IH = Cons.IH[OF wf1 Cons.prems(2) a(3) a(4)]
  have g1: "\<And>i' j'. i' < rows \<Longrightarrow> j' < cols \<Longrightarrow>
     ?g1 ! i' ! j' = (if i' = i \<and> j' = a then F a (gr ! i ! a) else gr ! i' ! j')"
    using setCell_nth[OF Cons.prems(1) Cons.prems(2) a(1)] by simp
  show ?case
    using IH a(2) by (auto simp: g1 Cons.prems(2))
qed

lemma fold_grid:
  "wfGrid rows cols gr \<Longrightarrow> distinct is \<Longrightarrow> \<forall>i\<in>set is. i < rows \<Longrightarrow>
   \<forall>i\<in>set is. distinct (js i) \<and> (\<forall>j\<in>set (js i). j < cols) \<Longrightarrow>
   wfGrid rows cols
     (fold (\<lambda>i gr. fold (\<lambda>j gr. setCell gr i j (F i j (gr ! i ! j))) (js i) gr) is gr) \<and>
   (\<forall>i'<rows. \<forall>j'<cols.
      fold (\<lambda>i gr. fold (\<lambda>j gr. setCell gr i j (F i j (gr ! i ! j))) (js i) gr) is gr ! i' ! j' =
        (if i' \<in> set is \<and> j' \<in> set (js i') then F i' j' (gr ! i' ! j') else gr ! i' ! j'))"
proof (induction "is" arbitrary: gr)
  case Nil
  then show ?case by simp
next
  case (Cons a "is")
  let ?g1 = "fold (\<lambda>j gr. setCell gr a j (F a j (gr ! a ! j))) (js a) gr"
  have a: "a < rows" "a \<notin> set is" "distinct is" "\<forall>i\<in>set is. i < rows"
    "distinct (js a)" "\<forall>j\<in>set (js a). j < cols"
    "\<forall>i\<in>set is. distinct (js i) \<and> (\<forall>j\<in>set (js i). j < cols)"
    using Cons.prems by auto
  note row = fold_row[OF Cons.prems(1) a(1) a(5) a(6), of "F a"]
  note IH = Cons.IH[OF conjunct1[OF row] a(3) a(4) a(7)]
  show ?case
    using IH a(2) conjunct2[OF row] by auto
qed

lemma copyGrid_props:
  "wfGrid rows cols (copyGrid rows cols prev) \<and>
   (\<forall>i<rows. \<forall>j<cols. copyGrid rows cols prev ! i ! j =
      (if i \<in> set [0..<min (length prev) rows] \<and> j \<in> set [0..<min (length (prev ! i)) cols]
       then spread (prev ! i ! j) else emptyGrid rows cols ! i ! j))"
  unfolding copyGrid_def
  by (rule fold_grid[where F = "\<lambda>i j v. spread (prev ! i ! j)"
        and js = "\<lambda>i. [0..<min (length (prev ! i)) cols]"])
     (simp_all add: wfGrid_emptyGrid)

lemma copyGrid_wf: "wfGrid rows cols (copyGrid rows cols prev)"
  using copyGrid_props by blast

lemma copyGrid_nth:
  "i < rows \<Longrightarrow> j < cols \<Longrightarrow>
   copyGrid rows cols prev ! i ! j =
     (if i < length prev \<and> j < length (prev ! i) then spread (prev ! i ! j) else Null)"
  using conjunct2[OF copyGrid_props, of rows cols prev]
  by (simp add: emptyGrid_def)

lemma decayGrid_wf: "wfGrid rows cols gr \<Longrightarrow> wfGrid rows cols (decayGrid rows cols gr)"
  unfolding decayGrid_def
  using fold_grid[of rows cols gr "[0..<rows]" "\<lambda>i. [0..<cols]" "\<lambda>i j v. decayCell v"]
  by simp

lemma decayGrid_nth:
  "wfGrid rows cols gr \<Longrightarrow> i < rows \<Longrightarrow> j < cols \<Longrightarrow>
   decayGrid rows cols gr ! i ! j = decayCell (gr ! i ! j)"
  unfolding decayGrid_def
  using fold_grid[of rows cols gr "[0..<rows]" "\<lambda>i. [0..<cols]" "\<lambda>i j v. decayCell v"]
  by simp

lemma paint_fold_wf:
  "wfGrid rows cols gr \<Longrightarrow>
   wfGrid rows cols (fold (\<lambda>i gr. if i < rows \<and> c < cols then setCell gr i c (V i) else gr) is gr)"
  by (induction "is" arbitrary: gr) (auto simp: wfGrid_setCell)

lemma paint_fold_nth:
  "wfGrid rows cols gr \<Longrightarrow> i' < rows \<Longrightarrow> j' < cols \<Longrightarrow>
   fold (\<lambda>i gr. if i < rows \<and> c < cols then setCell gr i c (V i) else gr) is gr ! i' ! j' =
     (if j' = c \<and> i' \<in> set is then V i' else gr ! i' ! j')"
proof (induction "is" arbitrary: gr)
  case Nil
  then show ?case by simp
next
  case (Cons a "is")
  show ?case
  proof (cases "a < rows \<and> c < cols")
    case True
    have wf1: "wfGrid rows cols (setCell gr a c (V a))"
      using Cons.prems(1) by (rule wfGrid_setCell)
    show ?thesis
      using True Cons.IH[OF wf1 Cons.prems(2,3)]
        setCell_nth[OF Cons.prems(1) _ _ Cons.prems(2,3), of a c "V a"]
      by auto
  next
    case False
    then show ?thesis
      using Cons.IH[OF Cons.prems] Cons.prems by auto
  qed
qed

lemma paintTrail_wf: "wfGrid rows cols gr \<Longrightarrow> wfGrid rows cols (paintTrail rows cols d gr)"
  unfolding paintTrail_def Let_def by (rule paint_fold_wf)

lemma paintTrail_nth:
  "wfGrid rows cols gr \<Longrightarrow> i < rows \<Longrightarrow> j < cols \<Longrightarrow>
   paintTrail rows cols d gr ! i ! j = (if paints d i j then trailCell d i else gr ! i ! j)"
  unfolding paintTrail_def Let_def paints_def trailCell_def
  by (rule paint_fold_nth)

lemma paintAll_wf:
  "wfGrid rows cols gr \<Longrightarrow> wfGrid rows cols (fold (paintTrail rows cols) ds gr)"
  by (induction ds arbitrary: gr) (auto simp: paintTrail_wf)

text \<open>
  After all trails are painted a cell holds what the last drop that paints it wrote: the
  drops are processed in list order and each write replaces the cell.
\<close>

lemma paintAll_nth:
  "wfGrid rows cols gr \<Longrightarrow> i < rows \<Longrightarrow> j < cols \<Longrightarrow>
   fold (paintTrail rows cols) ds gr ! i ! j =
     fold (\<lambda>d v. if paints d i j then trailCell d i else v) ds (gr ! i ! j)"
  by (induction ds arbitrary: gr) (auto simp: paintTrail_wf paintTrail_nth)

lemma paints_iff:
  "paints d i j \<longleftrightarrow> col d = j \<and> i \<le> row d \<and> row d < i + DROP_LIFE_SPAN"
  by (auto simp: paints_def trailRows_def DROP_LIFE_SPAN_def)

lemma overwrite_none:
  "\<forall>d\<in>set ds. \<not> paints d i j \<Longrightarrow>
   fold (\<lambda>d v. if paints d i j then trailCell d i else v) ds v = v"
  by (induction ds arbitrary: v) auto

lemma overwrite_last:
  "paints d i j \<Longrightarrow> \<forall>e\<in>set post. \<not> paints e i j \<Longrightarrow>
   fold (\<lambda>d v. if paints d i j then trailCell d i else v) (pre @ d # post) v = trailCell d i"
  by (simp add: overwrite_none)

section \<open>The forEach over the drops and the components of a tick\<close>

lemma dropPhase_fold:
  "fold (dropStep rows cols sp) ds (fl, gr, upd) =
     (fl \<or> (\<exists>d\<in>set ds. color d = sp \<and> row d \<ge> rows div 2),
      fold (paintTrail rows cols) ds gr,
      upd @ map (\<lambda>d. d\<lparr>row := row d + 1\<rparr>)
              (filter (\<lambda>d. row d + 1 < rows + DROP_LIFE_SPAN \<and> col d < cols) ds))"
  by (induction ds arbitrary: fl gr upd) (auto simp: dropStep_def Let_def)

lemma dropPhase_eq:
  "dropPhase rows cols sp ds gr =
     ((\<exists>d\<in>set ds. color d = sp \<and> row d \<ge> rows div 2),
      fold (paintTrail rows cols) ds gr,
      map (\<lambda>d. d\<lparr>row := row d + 1\<rparr>)
          (filter (\<lambda>d. row d + 1 < rows + DROP_LIFE_SPAN \<and> col d < cols) ds))"
  by (simp add: dropPhase_def dropPhase_fold)

lemma tick_gridState:
  "gridState (tick rnd st) =
     fold (paintTrail (gridRows st) (gridCols st)) (activeDrops st)
       (decayGrid (gridRows st) (gridCols st)
          (copyGrid (gridRows st) (gridCols st) (gridState st)))"
  by (simp add: tick_def Let_def dropPhase_eq)

lemma tick_dims: "gridRows (tick rnd st) = gridRows st" "gridCols (tick rnd st) = gridCols st"
  by (simp_all add: tick_def Let_def)

lemma tick_wf: "wfGrid (gridRows st) (gridCols st) (gridState (tick rnd st))"
  by (simp add: tick_gridState paintAll_wf decayGrid_wf copyGrid_wf)

lemma tick_cell:
  "i < gridRows st \<Longrightarrow> j < gridCols st \<Longrightarrow>
   gridState (tick rnd st) ! i ! j =
     fold (\<lambda>d v. if paints d i j then trailCell d i else v) (activeDrops st)
       (decayCell (if i < length (gridState st) \<and> j < length (gridState st ! i)
                   then spread (gridState st ! i ! j) else Null))"
  by (simp add: tick_gridState paintAll_nth decayGrid_wf copyGrid_wf decayGrid_nth copyGrid_nth)

lemma tick_unfold:
  "tick rnd st =
     (let iq = colorAdvance rnd (gridCols st) (midpointFlag st)
                 (currentSpawningColorIndex st, nextColorSpawnQueue st);
          dq = spawn (gridCols st) (fst iq) (survivors st) (snd iq)
      in st\<lparr>gridState :=
              fold (paintTrail (gridRows st) (gridCols st)) (activeDrops st)
                (decayGrid (gridRows st) (gridCols st)
                   (copyGrid (gridRows st) (gridCols st) (gridState st))),
            activeDrops := fst dq,
            currentSpawningColorIndex := fst iq,
            nextColorSpawnQueue := snd dq\<rparr>)"
  unfolding tick_def Let_def dropPhase_eq midpointFlag_def survivors_def
  by simp

lemma tick_index:
  "currentSpawningColorIndex (tick rnd st) =
     (if midpointFlag st \<and> nextColorSpawnQueue st = []
      then (currentSpawningColorIndex st + 1) mod length SMOOTH_VIBGYOR_COLORS
      else currentSpawningColorIndex st)"
  unfolding tick_unfold by (simp add: Let_def colorAdvance_def)

lemma tick_queue:
  "nextColorSpawnQueue (tick rnd st) =
     tl (if midpointFlag st \<and> nextColorSpawnQueue st = []
         then generateNewSpawnColumns rnd (gridCols st)
         else nextColorSpawnQueue st)"
  unfolding tick_unfold by (simp add: Let_def colorAdvance_def spawn_def split: list.split)

lemma tick_activeDrops:
  "activeDrops (tick rnd st) =
     survivors st @
     (case (if midpointFlag st \<and> nextColorSpawnQueue st = []
            then generateNewSpawnColumns rnd (gridCols st)
            else nextColorSpawnQueue st) of
        [] \<Rightarrow> []
      | c # rest \<Rightarrow>
          if c < gridCols st
          then [\<lparr>col = c, row = 0,
                 color = SMOOTH_VIBGYOR_COLORS ! currentSpawningColorIndex (tick rnd st)\<rparr>]
          else [])"
  unfolding tick_index
  unfolding tick_unfold by (simp add: Let_def colorAdvance_def spawn_def split: list.split)

lemma advance_inj:
  "(e::drop)\<lparr>row := Suc (row e)\<rparr> = d\<lparr>row := Suc (row d)\<rparr> \<longleftrightarrow> e = d"
  by (cases e, cases d) auto

section \<open>The shuffle and the spawn columns\<close>

lemma shuffle_fold:
  "\<forall>i\<in>set is. i < length xs \<Longrightarrow>
   length (fold (\<lambda>i a. let j = rnd i mod (i + 1) in a[i := a ! j, j := a ! i]) is xs) = length xs \<and>
   set (fold (\<lambda>i a. let j = rnd i mod (i + 1) in a[i := a ! j, j := a ! i]) is xs) = set xs \<and>
   distinct (fold (\<lambda>i a. let j = rnd i mod (i + 1) in a[i := a ! j, j := a ! i]) is xs) = distinct xs"
proof (induction "is" arbitrary: xs)
  case Nil
  then show ?case by simp
next
  case (Cons i "is")
  let ?j = "rnd i mod (i + 1)"
  let ?ys = "xs[i := xs ! ?j, ?j := xs ! i]"
  have i: "i < length xs" using Cons.prems by simp
  have "?j < i + 1" by simp
  then have j: "?j < length xs" using i by linarith
  have l: "length ?ys = length xs" by simp
  have s: "set ?ys = set xs" using i j by (rule set_swap)
  have d: "distinct ?ys = distinct xs" using i j by (rule distinct_swap)
  have "\<forall>k\<in>set is. k < length ?ys" using Cons.prems by simp
  from Cons.IH[OF this] l s d show ?case by (simp add: Let_def)
qed

lemma shuffleArray_props:
  "length (shuffleArray rnd xs) = length xs \<and> set (shuffleArray rnd xs) = set xs \<and>
   distinct (shuffleArray rnd xs) = distinct xs"
  unfolding shuffleArray_def by (rule shuffle_fold) simp

lemma shuffle_fold_id:
  "fold (\<lambda>i a. let j = id i mod (i + 1) in a[i := a ! j, j := a ! i]) is xs = xs"
  by (induction "is" arbitrary: xs) (simp_all add: Let_def)

lemma shuffleArray_id: "shuffleArray id xs = xs"
  unfolding shuffleArray_def by (rule shuffle_fold_id)

lemma generateNewSpawnColumns_props:
  assumes "0 < cols"
  shows "length (generateNewSpawnColumns rnd cols) = max 1 (cols div 4)"
    and "distinct (generateNewSpawnColumns rnd cols)"
    and "\<forall>c\<in>set (generateNewSpawnColumns rnd cols). c < cols"
proof -
  have av: "map (\<lambda>i. 0 + i) [0..<nat (max 0 (int cols - 1) - int 0 + 1)] = [0..<cols]"
    using assms by (simp add: map_idI)
  have le: "max 1 (cols div 4) \<le> cols" using assms by simp
  note sh = shuffleArray_props[of rnd "[0..<cols]"]
  show "length (generateNewSpawnColumns rnd cols) = max 1 (cols div 4)"
    unfolding generateNewSpawnColumns_def Let_def av using sh le by simp
  show "distinct (generateNewSpawnColumns rnd cols)"
    unfolding generateNewSpawnColumns_def Let_def av using sh by (simp add: distinct_take)
  show "\<forall>c\<in>set (generateNewSpawnColumns rnd cols). c < cols"
    unfolding generateNewSpawnColumns_def Let_def av using sh
    by (auto dest!: in_set_takeD)
qed

lemma generateNewSpawnColumns_id:
  "0 < cols \<Longrightarrow> generateNewSpawnColumns id cols = [0..<max 1 (cols div 4)]"
proof -
  assume c: "0 < cols"
  have av: "map (\<lambda>i. 0 + i) [0..<nat (max 0 (int cols - 1) - int 0 + 1)] = [0..<cols]"
    using c by (simp add: map_idI)
  have le: "max 1 (cols div 4) \<le> cols" using c by simp
  show ?thesis
    unfolding generateNewSpawnColumns_def Let_def av shuffleArray_id
    using le by (simp add: min_absorb1)
qed

lemma effectReset_resetTo: "0 < cols \<Longrightarrow> resetTo rows cols (effectReset rnd rows cols)"
  using generateNewSpawnColumns_props[of cols rnd]
  by (simp add: resetTo_def effectReset_def emptyGrid_def)

section \<open>The checked loops never fail\<close>

lemma foldE_Inr:
  assumes "I s" and "\<And>x s. x \<in> set xs \<Longrightarrow> I s \<Longrightarrow> f x s = Inr (g x s) \<and> I (g x s)"
  shows "foldE f xs s = Inr (fold g xs s) \<and> I (fold g xs s)"
  using assms by (induction xs arbitrary: s) auto

lemma writeCell_wf:
  "wfGrid rows cols gr \<Longrightarrow> i < rows \<Longrightarrow> j < cols \<Longrightarrow> writeCell gr i j v = Inr (setCell gr i j v)"
  by (simp add: writeCell_def wfGrid_def)

lemma readCell_wf:
  "wfGrid rows cols gr \<Longrightarrow> i < rows \<Longrightarrow> j < cols \<Longrightarrow> readCell gr i j = Inr (gr ! i ! j)"
  by (simp add: readCell_def wfGrid_def)

lemma copyRow_checked:
  assumes "wfGrid rows cols gr" "i < rows" "i < length prev"
  shows "foldE (\<lambda>j gr. case readCell prev i j of Inl e \<Rightarrow> Inl e
                        | Inr v \<Rightarrow> writeCell gr i j (spread v))
           [0..<min (length (prev ! i)) cols] gr =
         Inr (fold (\<lambda>j gr. setCell gr i j (spread (prev ! i ! j)))
                [0..<min (length (prev ! i)) cols] gr) \<and>
         wfGrid rows cols (fold (\<lambda>j gr. setCell gr i j (spread (prev ! i ! j)))
                [0..<min (length (prev ! i)) cols] gr)"
  by (rule foldE_Inr[where I = "wfGrid rows cols"])
     (use assms in \<open>auto simp: readCell_def writeCell_wf wfGrid_setCell\<close>)

lemma copyGridChecked_ok:
  "copyGridChecked rows cols prev = Inr (copyGrid rows cols prev)"
proof -
  have "foldE (\<lambda>i gr.
              case rowLength prev i of
                Inl e \<Rightarrow> Inl e
              | Inr n \<Rightarrow>
                  foldE (\<lambda>j gr. case readCell prev i j of
                                  Inl e \<Rightarrow> Inl e
                                | Inr v \<Rightarrow> writeCell gr i j (spread v))
                        [0..<min n cols] gr)
           [0..<min (length prev) rows] (emptyGrid rows cols) =
        Inr (fold (\<lambda>i gr. fold (\<lambda>j gr. setCell gr i j (spread (prev ! i ! j)))
                       [0..<min (length (prev ! i)) cols] gr)
          [0..<min (length prev) rows] (emptyGrid rows cols)) \<and>
        wfGrid rows cols (fold (\<lambda>i gr. fold (\<lambda>j gr. setCell gr i j (spread (prev ! i ! j)))
                       [0..<min (length (prev ! i)) cols] gr)
          [0..<min (length prev) rows] (emptyGrid rows cols))"
  proof (rule foldE_Inr[where I = "wfGrid rows cols"])
    show "wfGrid rows cols (emptyGrid rows cols)" by (rule wfGrid_emptyGrid)
  next
    fix i gr
    assume i: "i \<in> set [0..<min (length prev) rows]" and wf: "wfGrid rows cols gr"
    then have "i < rows" "i < length prev" by auto
    from copyRow_checked[OF wf this] \<open>i < length prev\<close>
    show "(case rowLength prev i of
                Inl e \<Rightarrow> Inl e
              | Inr n \<Rightarrow>
                  foldE (\<lambda>j gr. case readCell prev i j of
                                  Inl e \<Rightarrow> Inl e
                                | Inr v \<Rightarrow> writeCell gr i j (spread v))
                        [0..<min n cols] gr) =
          Inr (fold (\<lambda>j gr. setCell gr i j (spread (prev ! i ! j)))
                       [0..<min (length (prev ! i)) cols] gr) \<and>
          wfGrid rows cols (fold (\<lambda>j gr. setCell gr i j (spread (prev ! i ! j)))
                       [0..<min (length (prev ! i)) cols] gr)"
      by (simp add: rowLength_def)
  qed
  then show ?thesis by (simp add: copyGridChecked_def copyGrid_def)
qed

lemma decayRow_checked:
  assumes "wfGrid rows cols gr" "i < rows"
  shows "foldE (\<lambda>j gr. case readCell gr i j of
                              Inl e \<Rightarrow> Inl e
                            | Inr (Painted cr cg cb l) \<Rightarrow>
                                writeCell gr i j (decayCell (Painted cr cg cb l))
                            | Inr v \<Rightarrow> Inr gr)
                    [0..<cols] gr =
         Inr (fold (\<lambda>j gr. setCell gr i j (decayCell (gr ! i ! j))) [0..<cols] gr) \<and>
         wfGrid rows cols (fold (\<lambda>j gr. setCell gr i j (decayCell (gr ! i ! j))) [0..<cols] gr)"
proof (rule foldE_Inr[where I = "wfGrid rows cols"])
  show "wfGrid rows cols gr" by fact
next
  fix j gr
  assume j: "j \<in> set [0..<cols]" and wf: "wfGrid rows cols gr"
  then have jc: "j < cols" by simp
  show "(case readCell gr i j of
                              Inl e \<Rightarrow> Inl e
                            | Inr (Painted cr cg cb l) \<Rightarrow>
                                writeCell gr i j (decayCell (Painted cr cg cb l))
                            | Inr v \<Rightarrow> Inr gr) =
        Inr (setCell gr i j (decayCell (gr ! i ! j))) \<and>
        wfGrid rows cols (setCell gr i j (decayCell (gr ! i ! j)))"
  proof (cases "gr ! i ! j")
    case Null
    then show ?thesis
      using setCell_same[of gr i j] wf by (simp add: readCell_wf[OF wf assms(2) jc])
  next
    case EmptyObject
    then show ?thesis
      using setCell_same[of gr i j] wf by (simp add: readCell_wf[OF wf assms(2) jc])
  next
    case (Painted cr cg cb l)
    then show ?thesis
      using wfGrid_setCell[OF wf]
      by (simp add: readCell_wf[OF wf assms(2) jc] writeCell_wf[OF wf assms(2) jc])
  qed
qed

lemma decayGridChecked_ok:
  assumes "wfGrid rows cols gr"
  shows "decayGridChecked rows cols gr = Inr (decayGrid rows cols gr)"
proof -
  have "foldE (\<lambda>i gr.
              foldE (\<lambda>j gr. case readCell gr i j of
                              Inl e \<Rightarrow> Inl e
                            | Inr (Painted cr cg cb l) \<Rightarrow>
                                writeCell gr i j (decayCell (Painted cr cg cb l))
                            | Inr v \<Rightarrow> Inr gr)
                    [0..<cols] gr)
           [0..<rows] gr =
        Inr (fold (\<lambda>i gr. fold (\<lambda>j gr. setCell gr i j (decayCell (gr ! i ! j))) [0..<cols] gr)
          [0..<rows] gr) \<and>
        wfGrid rows cols (fold (\<lambda>i gr. fold (\<lambda>j gr. setCell gr i j (decayCell (gr ! i ! j))) [0..<cols] gr)
          [0..<rows] gr)"
    by (rule foldE_Inr[where I = "wfGrid rows cols"])
       (use assms decayRow_checked in \<open>simp_all\<close>)
  then show ?thesis by (simp add: decayGridChecked_def decayGrid_def)
qed

lemma paintTrailChecked_ok:
  assumes "wfGrid rows cols gr"
  shows "paintTrailChecked rows cols d gr = Inr (paintTrail rows cols d gr)"
proof -
  have "foldE (\<lambda>i gr.
              if i < rows \<and> col d < cols then
                (let lifeRemaining = int DROP_LIFE_SPAN - (int (row d) - int i)
                 in writeCell gr i (col d)
                      (Painted (fst (color d)) (fst (snd (color d))) (snd (snd (color d)))
                         lifeRemaining))
              else Inr gr)
           (trailRows d) gr =
        Inr (fold (\<lambda>i gr.
             if i < rows \<and> col d < cols then
               (let lifeRemaining = int DROP_LIFE_SPAN - (int (row d) - int i)
                in setCell gr i (col d)
                     (Painted (fst (color d)) (fst (snd (color d))) (snd (snd (color d)))
                        lifeRemaining))
             else gr)
          (trailRows d) gr) \<and>
        wfGrid rows cols (fold (\<lambda>i gr.
             if i < rows \<and> col d < cols then
               (let lifeRemaining = int DROP_LIFE_SPAN - (int (row d) - int i)
                in setCell gr i (col d)
                     (Painted (fst (color d)) (fst (snd (color d))) (snd (snd (color d)))
                        lifeRemaining))
             else gr)
          (trailRows d) gr)"
    by (rule foldE_Inr[where I = "wfGrid rows cols"])
       (use assms in \<open>auto simp: Let_def writeCell_wf wfGrid_setCell\<close>)
  then show ?thesis by (simp add: paintTrailChecked_def paintTrail_def)
qed

lemma paintAllChecked_ok:
  assumes "wfGrid rows cols gr"
  shows "foldE (paintTrailChecked rows cols) ds gr = Inr (fold (paintTrail rows cols) ds gr)"
  using foldE_Inr[where I = "wfGrid rows cols" and f = "paintTrailChecked rows cols"
      and g = "paintTrail rows cols" and xs = ds and s = gr]
    assms paintTrailChecked_ok paintTrail_wf
  by blast

lemma dropPhaseChecked_ok:
  assumes "wfGrid rows cols gr"
  shows "foldE (dropStepChecked rows cols sp) ds (fl, gr, upd) =
         Inr (fold (dropStep rows cols sp) ds (fl, gr, upd))"
proof -
  have "foldE (dropStepChecked rows cols sp) ds (fl, gr, upd) =
          Inr (fold (dropStep rows cols sp) ds (fl, gr, upd)) \<and>
        (\<lambda>acc. wfGrid rows cols (fst (snd acc))) (fold (dropStep rows cols sp) ds (fl, gr, upd))"
  proof (rule foldE_Inr[where I = "\<lambda>acc. wfGrid rows cols (fst (snd acc))"])
    show "wfGrid rows cols (fst (snd (fl, gr, upd)))" using assms by simp
  next
    fix d and acc :: "bool \<times> grid \<times> drop list"
    assume wf: "wfGrid rows cols (fst (snd acc))"
    obtain f g u where acc: "acc = (f, g, u)" by (cases acc) auto
    from wf acc have g: "wfGrid rows cols g" by simp
    show "dropStepChecked rows cols sp d acc = Inr (dropStep rows cols sp d acc) \<and>
          wfGrid rows cols (fst (snd (dropStep rows cols sp d acc)))"
      by (simp add: acc dropStepChecked_def dropStep_def Let_def
          paintTrailChecked_ok[OF g] paintTrail_wf[OF g])
  qed
  then show ?thesis by simp
qed

section \<open>Life counters stay in range\<close>

lemma cellLifeOk_spread: "cellLifeOk c \<Longrightarrow> cellLifeOk (spread c)"
  by (cases c) simp_all

lemma cellLifeOk_decayCell: "cellLifeOk c \<Longrightarrow> cellLifeOk (decayCell c)"
  by (cases c) (simp_all add: DROP_LIFE_SPAN_def)

lemma cellLifeOk_trailCell: "paints d i j \<Longrightarrow> cellLifeOk (trailCell d i)"
  by (auto simp: paints_iff trailCell_def DROP_LIFE_SPAN_def)

lemma cellLifeOk_overwrite:
  "cellLifeOk v \<Longrightarrow>
   cellLifeOk (fold (\<lambda>d v. if paints d i j then trailCell d i else v) ds v)"
  by (induction ds arbitrary: v) (auto simp: cellLifeOk_trailCell)

lemma gridLifeOk_nth:
  assumes "gridLifeOk gr" "i < length gr" "j < length (gr ! i)"
  shows "cellLifeOk (gr ! i ! j)"
proof -
  have "gr ! i \<in> set gr" using assms(2) by simp
  moreover have "gr ! i ! j \<in> set (gr ! i)" using assms(3) by simp
  ultimately show ?thesis using assms(1) unfolding gridLifeOk_def by blast
qed

lemma gridLifeOk_wf:
  "wfGrid rows cols gr \<Longrightarrow> (\<forall>i<rows. \<forall>j<cols. cellLifeOk (gr ! i ! j)) \<Longrightarrow> gridLifeOk gr"
  unfolding gridLifeOk_def wfGrid_def by (metis in_set_conv_nth)

lemma tick_gridLifeOk:
  assumes "gridLifeOk (gridState st)"
  shows "gridLifeOk (gridState (tick rnd st))"
proof (rule gridLifeOk_wf[OF tick_wf], intro allI impI)
  fix i j
  assume ij: "i < gridRows st" "j < gridCols st"
  have "cellLifeOk (if i < length (gridState st) \<and> j < length (gridState st ! i)
                    then spread (gridState st ! i ! j) else Null)"
    using gridLifeOk_nth[OF assms] by (simp add: cellLifeOk_spread)
  then show "cellLifeOk (gridState (tick rnd st) ! i ! j)"
    unfolding tick_cell[OF ij] by (intro cellLifeOk_overwrite cellLifeOk_decayCell)
qed

lemma effectReset_gridLifeOk: "gridLifeOk (gridState (effectReset rnd rows cols))"
  by (simp add: effectReset_def emptyGrid_def gridLifeOk_def)

lemma reachable_gridLifeOk: "reachable st \<Longrightarrow> gridLifeOk (gridState st)"
  by (induction rule: reachable.induct)
     (simp_all add: effectReset_gridLifeOk tick_gridLifeOk onRowsChange_def onColsChange_def Let_def)

text \<open>Every reachable state has both dimensions between 1 and 25.\<close>

lemma reachable_dimensions:
  "reachable st \<Longrightarrow>
   1 \<le> gridRows st \<and> gridRows st \<le> 25 \<and> 1 \<le> gridCols st \<and> gridCols st \<le> 25"
proof (induction rule: reachable.induct)
  case (mounted rnd)
  then show ?case by (simp add: effectReset_def)
next
  case (ticked st rnd)
  then show ?case by (simp add: tick_dims)
next
  case (rowsChanged st rnd v)
  then show ?case
    using clampDimension_range[of v]
    by (auto simp: onRowsChange_def Let_def effectReset_def)
next
  case (colsChanged st rnd v)
  then show ?case
    using clampDimension_range[of v]
    by (auto simp: onColsChange_def Let_def effectReset_def)
qed

section \<open>Concrete runs, evaluated\<close>

lemma funpow8: "(f ^^ 8) x = f (f (f (f (f (f (f (f x)))))))"
  by (simp add: eval_nat_numeral)

lemma funpow9: "(f ^^ 9) x = f (f (f (f (f (f (f (f (f x))))))))"
  by (simp add: eval_nat_numeral)

lemma run1x1_eq: "run1x1 = effectReset id 1 1"
  by (simp add: run1x1_def onRowsChange_def onColsChange_def Let_def clampDimension_cases
      effectReset_def)

lemma run15x1_eq: "run15x1 = effectReset id 15 1"
  by (simp add: run15x1_def onColsChange_def Let_def clampDimension_cases effectReset_def)

lemma reachable_run1x1: "reachable run1x1"
  unfolding run1x1_def by (intro reachable.intros)

lemma reachable_run15x1: "reachable run15x1"
  unfolding run15x1_def by (intro reachable.intros)

lemma reachable_funpow: "reachable st \<Longrightarrow> reachable ((tick rnd ^^ n) st)"
  by (induction n) (auto intro: reachable.ticked)

lemmas eval_simps = tick_unfold Let_def colorAdvance_def spawn_def survivors_def midpointFlag_def
  copyGrid_def decayGrid_def paintTrail_def trailRows_def setCell_def emptyGrid_def
  DROP_LIFE_SPAN_def spectrum_first_segment spectrum_length
  generateNewSpawnColumns_id effectReset_def upt_rec

text \<open>A 1 by 1 grid: every tick from the second on advances the colour and spawns a drop.\<close>

lemma run1x1_tick1:
  "tick id run1x1 =
     \<lparr>gridRows = 1, gridCols = 1, gridState = [[EmptyObject]],
      activeDrops = [\<lparr>col = 0, row = 0, color = (255, 0, 0)\<rparr>],
      currentSpawningColorIndex = 0, nextColorSpawnQueue = []\<rparr>"
  unfolding run1x1_eq by (simp add: eval_simps)

lemma run1x1_tick2:
  "tick id (tick id run1x1) =
     \<lparr>gridRows = 1, gridCols = 1, gridState = [[Painted 255 0 0 7]],
      activeDrops = [\<lparr>col = 0, row = 1, color = (255, 0, 0)\<rparr>,
                     \<lparr>col = 0, row = 0, color = (255, 12, 0)\<rparr>],
      currentSpawningColorIndex = 1, nextColorSpawnQueue = []\<rparr>"
  unfolding run1x1_tick1 by (simp add: eval_simps)

lemma run1x1_tick3:
  "tick id (tick id (tick id run1x1)) =
     \<lparr>gridRows = 1, gridCols = 1, gridState = [[Painted 255 12 0 7]],
      activeDrops = [\<lparr>col = 0, row = 2, color = (255, 0, 0)\<rparr>,
                     \<lparr>col = 0, row = 1, color = (255, 12, 0)\<rparr>,
                     \<lparr>col = 0, row = 0, color = (255, 25, 0)\<rparr>],
      currentSpawningColorIndex = 2, nextColorSpawnQueue = []\<rparr>"
  unfolding run1x1_tick2 by (simp add: eval_simps)

lemma run1x1_tick8:
  "(tick id ^^ 8) run1x1 =
     \<lparr>gridRows = 1, gridCols = 1, gridState = [[Painted 255 76 0 7]],
      activeDrops = [\<lparr>col = 0, row = 7, color = (255, 0, 0)\<rparr>,
                     \<lparr>col = 0, row = 6, color = (255, 12, 0)\<rparr>,
                     \<lparr>col = 0, row = 5, color = (255, 25, 0)\<rparr>,
                     \<lparr>col = 0, row = 4, color = (255, 38, 0)\<rparr>,
                     \<lparr>col = 0, row = 3, color = (255, 51, 0)\<rparr>,
                     \<lparr>col = 0, row = 2, color = (255, 63, 0)\<rparr>,
                     \<lparr>col = 0, row = 1, color = (255, 76, 0)\<rparr>,
                     \<lparr>col = 0, row = 0, color = (255, 89, 0)\<rparr>],
      currentSpawningColorIndex = 7, nextColorSpawnQueue = []\<rparr>"
  unfolding funpow8 run1x1_eq by (simp add: eval_simps)

lemma run1x1_tick9_drops:
  "activeDrops (tick id ((tick id ^^ 8) run1x1)) =
     [\<lparr>col = 0, row = 7, color = (255, 12, 0)\<rparr>,
                     \<lparr>col = 0, row = 6, color = (255, 25, 0)\<rparr>,
                     \<lparr>col = 0, row = 5, color = (255, 38, 0)\<rparr>,
                     \<lparr>col = 0, row = 4, color = (255, 51, 0)\<rparr>,
                     \<lparr>col = 0, row = 3, color = (255, 63, 0)\<rparr>,
                     \<lparr>col = 0, row = 2, color = (255, 76, 0)\<rparr>,
                     \<lparr>col = 0, row = 1, color = (255, 89, 0)\<rparr>,
                     \<lparr>col = 0, row = 0, color = (255, 102, 0)\<rparr>]"
  unfolding run1x1_tick8 by (simp add: eval_simps)

text \<open>
  A 15 by 1 grid: the first drop paints cell (0, 0) for the last time on tick 8, with
  life 1; tick 9 decays it to 0.
\<close>

lemma run15x1_tick9_cell:
  "gridState ((tick id ^^ 9) run15x1) ! 0 ! 0 = Painted 255 0 0 0"
  unfolding funpow9 run15x1_eq by (simp add: eval_simps)

text \<open>The first two ticks after mounting, for any draws.\<close>

lemma two_ticks_from_mount:
  fixes r0 r1 r2
  defines "st1 \<equiv> tick r1 (effectReset r0 15 20)"
  defines "st2 \<equiv> tick r2 st1"
  shows "\<exists>c<20.
           activeDrops st1 = [\<lparr>col = c, row = 0, color = (255, 0, 0)\<rparr>] \<and>
           activeDrops st2 ! 0 = \<lparr>col = c, row = 1, color = (255, 0, 0)\<rparr> \<and>
           gridState st2 ! 0 ! c = Painted 255 0 0 7"
proof -
  let ?st0 = "effectReset r0 15 20"
  let ?q = "generateNewSpawnColumns r0 20"
  have len: "length ?q = 5" and inb: "\<forall>c\<in>set ?q. c < 20"
    using generateNewSpawnColumns_props[of 20 r0] by simp_all
  then obtain c rest where q: "?q = c # rest" by (cases ?q) auto
  have c: "c < 20" using inb q by simp
  have st0: "activeDrops ?st0 = []" "nextColorSpawnQueue ?st0 = c # rest"
    "gridRows ?st0 = 15" "gridCols ?st0 = 20" "currentSpawningColorIndex ?st0 = 0"
    by (simp_all add: effectReset_def q)
  have nf0: "\<not> midpointFlag ?st0" by (simp add: midpointFlag_def st0)
  have idx1: "currentSpawningColorIndex st1 = 0"
    unfolding st1_def tick_index using nf0 st0 by simp
  have drops1: "activeDrops st1 = [\<lparr>col = c, row = 0, color = (255, 0, 0)\<rparr>]"
    using idx1 c unfolding st1_def tick_activeDrops
    by (simp add: nf0 st0 survivors_def spectrum_0)
  have dims1: "gridRows st1 = 15" "gridCols st1 = 20"
    by (simp_all add: st1_def tick_dims st0)
  have surv: "survivors st1 = [\<lparr>col = c, row = 1, color = (255, 0, 0)\<rparr>]"
    using c by (simp add: survivors_def drops1 dims1 DROP_LIFE_SPAN_def)
  have drops2: "activeDrops st2 ! 0 = \<lparr>col = c, row = 1, color = (255, 0, 0)\<rparr>"
    unfolding st2_def tick_activeDrops surv by simp
  have "gridState st2 ! 0 ! c = Painted 255 0 0 7"
    unfolding st2_def using c
    by (simp add: tick_cell dims1 drops1 paints_iff trailCell_def DROP_LIFE_SPAN_def)
  with c drops1 drops2 show ?thesis by blast
qed

lemma two_ticks_from_mount_id:
  "activeDrops (tick id (effectReset id 15 20)) = [\<lparr>col = 0, row = 0, color = (255, 0, 0)\<rparr>] \<and>
   activeDrops (tick id (tick id (effectReset id 15 20))) ! 0 =
     \<lparr>col = 0, row = 1, color = (255, 0, 0)\<rparr> \<and>
   gridState (tick id (tick id (effectReset id 15 20))) ! 0 ! 0 = Painted 255 0 0 7"
proof -
  have d1: "activeDrops (tick id (effectReset id 15 20)) =
      [\<lparr>col = 0, row = 0, color = (255, 0, 0)\<rparr>]"
    unfolding tick_activeDrops tick_index
    by (simp add: midpointFlag_def survivors_def effectReset_def generateNewSpawnColumns_id
        upt_rec spectrum_0)
  from two_ticks_from_mount[of id id id] d1 show ?thesis by auto
qed

section \<open>The trail loop of one drop\<close>

text \<open>On any grid of the tick's dimensions the loop leaves the stated cell in the trail.\<close>

lemma trail_step:
  assumes "wfGrid rows cols gr" "i \<le> row d" "row d < i + DROP_LIFE_SPAN"
    "i < rows" "col d < cols"
  shows "paintTrail rows cols d gr ! i ! col d =
           Painted (fst (color d)) (fst (snd (color d))) (snd (snd (color d)))
             (int DROP_LIFE_SPAN - int (row d - i))"
  using assms by (simp add: paintTrail_nth paints_iff trailCell_def)

text \<open>
  A trail cell that no later drop of the list paints still holds the drop's paint when
  the tick ends.
\<close>

lemma trail_cell_at_end_of_tick:
  assumes "activeDrops st = pre @ d # post"
    and "i \<le> row d" "row d < i + DROP_LIFE_SPAN"
    and "i < gridRows st" "col d < gridCols st"
    and "\<forall>e\<in>set post. \<not> (col e = col d \<and> i \<le> row e \<and> row e < i + DROP_LIFE_SPAN)"
  shows "gridState (tick rnd st) ! i ! col d =
           Painted (fst (color d)) (fst (snd (color d))) (snd (snd (color d)))
             (int DROP_LIFE_SPAN - int (row d - i)) \<and>
         (i = row d \<longrightarrow>
            gridState (tick rnd st) ! i ! col d =
              Painted (fst (color d)) (fst (snd (color d))) (snd (snd (color d))) 7)"
proof -
  have p: "paints d i (col d)" using assms(2,3) by (simp add: paints_iff)
  have np: "\<forall>e\<in>set post. \<not> paints e i (col d)" using assms(6) by (simp add: paints_iff)
  have "gridState (tick rnd st) ! i ! col d = trailCell d i"
    unfolding tick_cell[OF assms(4,5)] assms(1) by (rule overwrite_last[OF p np])
  then show ?thesis using assms(2) by (auto simp: trailCell_def DROP_LIFE_SPAN_def)
qed

text \<open>
  Where two trails share a cell the later drop's paint is what the tick leaves: third
  tick of the 1 by 1 run.
\<close>

lemma later_drop_repaints_shared_cell:
  "reachable (tick id (tick id run1x1)) \<and>
   activeDrops (tick id (tick id run1x1)) =
     [\<lparr>col = 0, row = 1, color = (255, 0, 0)\<rparr>, \<lparr>col = 0, row = 0, color = (255, 12, 0)\<rparr>] \<and>
   gridRows (tick id (tick id run1x1)) = 1 \<and> gridCols (tick id (tick id run1x1)) = 1 \<and>
   gridState (tick id (tick id (tick id run1x1))) ! 0 ! 0 = Painted 255 12 0 7 \<and>
   gridState (tick id (tick id (tick id run1x1))) ! 0 ! 0 \<noteq>
     Painted 255 0 0 (int DROP_LIFE_SPAN - int (1 - 0))"
proof (rule conjI)
  show "reachable (tick id (tick id run1x1))"
    by (intro reachable.ticked reachable_run1x1)
  show "activeDrops (tick id (tick id run1x1)) =
     [\<lparr>col = 0, row = 1, color = (255, 0, 0)\<rparr>, \<lparr>col = 0, row = 0, color = (255, 12, 0)\<rparr>] \<and>
   gridRows (tick id (tick id run1x1)) = 1 \<and> gridCols (tick id (tick id run1x1)) = 1 \<and>
   gridState (tick id (tick id (tick id run1x1))) ! 0 ! 0 = Painted 255 12 0 7 \<and>
   gridState (tick id (tick id (tick id run1x1))) ! 0 ! 0 \<noteq>
     Painted 255 0 0 (int DROP_LIFE_SPAN - int (1 - 0))"
    by (simp add: run1x1_tick3, simp add: run1x1_tick2)
qed

section \<open>The claims\<close>

subsection \<open>C1: colour cycling\<close>

text \<open>
  Claim C1. Whenever the spawning colour index changes during a tick, the new index is
  (previous + 1) mod the spectrum length, some active drop of the currently spawning
  colour had its row at or beyond \<open>floor(gridRows / 2)\<close>, and the spawn queue was empty
  when the tick tested it (nothing changes the queue before that test, so this is the
  queue at the start of the tick).
\<close>

theorem index_changes_only_by_advance:
  assumes "currentSpawningColorIndex (tick rnd st) \<noteq> currentSpawningColorIndex st"
  shows "currentSpawningColorIndex (tick rnd st) =
           (currentSpawningColorIndex st + 1) mod length SMOOTH_VIBGYOR_COLORS \<and>
         (\<exists>d\<in>set (activeDrops st).
            color d = SMOOTH_VIBGYOR_COLORS ! currentSpawningColorIndex st \<and>
            row d \<ge> gridRows st div 2) \<and>
         nextColorSpawnQueue st = []"
  using assms unfolding tick_index midpointFlag_def by (simp split: if_splits)

text \<open>The second tick of the 1 by 1 run moves the index from 0 to 1.\<close>

theorem index_changes_only_by_advance_witness:
  "currentSpawningColorIndex (tick id (tick id run1x1)) \<noteq>
     currentSpawningColorIndex (tick id run1x1) \<and>
   currentSpawningColorIndex (tick id (tick id run1x1)) =
     (currentSpawningColorIndex (tick id run1x1) + 1) mod length SMOOTH_VIBGYOR_COLORS \<and>
   (\<exists>d\<in>set (activeDrops (tick id run1x1)).
      color d = SMOOTH_VIBGYOR_COLORS ! currentSpawningColorIndex (tick id run1x1) \<and>
      row d \<ge> gridRows (tick id run1x1) div 2) \<and>
   nextColorSpawnQueue (tick id run1x1) = []"
proof -
  have h: "currentSpawningColorIndex (tick id (tick id run1x1)) \<noteq>
           currentSpawningColorIndex (tick id run1x1)"
    by (simp add: run1x1_tick2, simp add: run1x1_tick1)
  from index_changes_only_by_advance[OF h] h show ?thesis by blast
qed

subsection \<open>C2: drop retirement\<close>

text \<open>
  Claim C2, amended. On every tick a drop of the active list is removed (its advanced
  copy is not in the new list) if and only if its advanced row, row + 1, is at least
  \<open>gridRows + DROP_LIFE_SPAN\<close>, or its column is not below \<open>gridCols\<close>. The code keeps a
  drop when \<open>newRow < gridRows + DROP_LIFE_SPAN\<close>, so a drop whose advanced row equals
  that sum is already removed.
\<close>

theorem drop_retirement:
  assumes "d \<in> set (activeDrops st)"
  shows "d\<lparr>row := row d + 1\<rparr> \<notin> set (activeDrops (tick rnd st)) \<longleftrightarrow>
         gridRows st + DROP_LIFE_SPAN \<le> row d + 1 \<or> gridCols st \<le> col d"
proof -
  have new: "d\<lparr>row := row d + 1\<rparr> \<notin> set
     (case (if midpointFlag st \<and> nextColorSpawnQueue st = []
            then generateNewSpawnColumns rnd (gridCols st)
            else nextColorSpawnQueue st) of
        [] \<Rightarrow> []
      | c # rest \<Rightarrow>
          if c < gridCols st
          then [\<lparr>col = c, row = 0,
                 color = SMOOTH_VIBGYOR_COLORS ! currentSpawningColorIndex (tick rnd st)\<rparr>]
          else [])"
    by (auto split: list.split dest: arg_cong[where f = row])
  have "d\<lparr>row := row d + 1\<rparr> \<in> set (survivors st) \<longleftrightarrow>
        row d + 1 < gridRows st + DROP_LIFE_SPAN \<and> col d < gridCols st"
    using assms unfolding survivors_def by (auto simp: advance_inj)
  with new show ?thesis unfolding tick_activeDrops by auto
qed

text \<open>
  On the ninth tick of the 1 by 1 run the drop at row 7 goes: its advanced row 8 equals
  1 + 7.
\<close>

theorem drop_retirement_witness:
  "\<lparr>col = 0, row = 7, color = (255, 0, 0)\<rparr> \<in> set (activeDrops ((tick id ^^ 8) run1x1)) \<and>
   (\<lparr>col = 0, row = 8, color = (255, 0, 0)\<rparr>
      \<notin> set (activeDrops (tick id ((tick id ^^ 8) run1x1))) \<longleftrightarrow>
    gridRows ((tick id ^^ 8) run1x1) + DROP_LIFE_SPAN \<le> 7 + 1 \<or>
    gridCols ((tick id ^^ 8) run1x1) \<le> 0)"
proof -
  have h: "\<lparr>col = 0, row = 7, color = (255, 0, 0)\<rparr> \<in> set (activeDrops ((tick id ^^ 8) run1x1))"
    by (simp add: run1x1_tick8)
  from drop_retirement[OF h, of id] h show ?thesis by simp
qed

text \<open>
  As stated, with "exceeds", the claim fails: after eight ticks of the 1 by 1 run the
  oldest drop is at row 7; its advanced row 8 does not exceed 1 + 7 and its column is
  inside the grid, yet the ninth tick removes it.
\<close>

theorem retired_at_exact_bound:
  "reachable ((tick id ^^ 8) run1x1) \<and>
   \<lparr>col = 0, row = 7, color = (255, 0, 0)\<rparr> \<in> set (activeDrops ((tick id ^^ 8) run1x1)) \<and>
   \<not> (gridRows ((tick id ^^ 8) run1x1) + DROP_LIFE_SPAN < 7 + 1) \<and>
   0 < gridCols ((tick id ^^ 8) run1x1) \<and>
   \<lparr>col = 0, row = 8, color = (255, 0, 0)\<rparr>
      \<notin> set (activeDrops (tick id ((tick id ^^ 8) run1x1)))"
proof (rule conjI)
  show "reachable ((tick id ^^ 8) run1x1)"
    by (rule reachable_funpow[OF reachable_run1x1])
  show "\<lparr>col = 0, row = 7, color = (255, 0, 0)\<rparr> \<in> set (activeDrops ((tick id ^^ 8) run1x1)) \<and>
   \<not> (gridRows ((tick id ^^ 8) run1x1) + DROP_LIFE_SPAN < 7 + 1) \<and>
   0 < gridCols ((tick id ^^ 8) run1x1) \<and>
   \<lparr>col = 0, row = 8, color = (255, 0, 0)\<rparr>
      \<notin> set (activeDrops (tick id ((tick id ^^ 8) run1x1)))"
    unfolding run1x1_tick9_drops by (simp add: run1x1_tick8 DROP_LIFE_SPAN_def)
qed

subsection \<open>C3: decay\<close>

text \<open>
  Claim C3. On every tick a cell that holds a life \<open>l\<close> at the start of the tick and that
  no drop's trail paints during the tick ends the tick with life \<open>l - 1\<close> and the same
  colour if \<open>l > 0\<close>, and is empty (\<open>null\<close>) if its life had reached 0.
\<close>

theorem decay_of_unpainted_cell:
  assumes "i < gridRows st" "j < gridCols st"
    and "i < length (gridState st)" "j < length (gridState st ! i)"
    and "gridState st ! i ! j = Painted cr cg cb l"
    and "\<forall>d\<in>set (activeDrops st). \<not> (col d = j \<and> i \<le> row d \<and> row d < i + DROP_LIFE_SPAN)"
  shows "(0 < l \<longrightarrow> gridState (tick rnd st) ! i ! j = Painted cr cg cb (l - 1)) \<and>
         (l \<le> 0 \<longrightarrow> gridState (tick rnd st) ! i ! j = Null)"
proof -
  have "\<forall>d\<in>set (activeDrops st). \<not> paints d i j"
    using assms(6) by (simp add: paints_iff)
  then show ?thesis
    using assms(1-5) by (simp add: tick_cell overwrite_none)
qed

text \<open>A row of two cells and no drops: life 3 becomes life 2, life 0 becomes \<open>null\<close>.\<close>

theorem decay_of_unpainted_cell_witness:
  "0 < gridRows decayExample \<and> 1 < gridCols decayExample \<and>
   0 < length (gridState decayExample) \<and> 1 < length (gridState decayExample ! 0) \<and>
   gridState decayExample ! 0 ! 0 = Painted 255 0 0 3 \<and>
   gridState decayExample ! 0 ! 1 = Painted 255 0 0 0 \<and>
   activeDrops decayExample = [] \<and>
   gridState (tick id decayExample) ! 0 ! 0 = Painted 255 0 0 2 \<and>
   gridState (tick id decayExample) ! 0 ! 1 = Null"
  using decay_of_unpainted_cell[of 0 decayExample 0 255 0 0 3 id]
    decay_of_unpainted_cell[of 0 decayExample 1 255 0 0 0 id]
  by (simp add: decayExample_def)

subsection \<open>C4: trail paint\<close>

text \<open>
  Claim C4. On every tick, for each active drop, the drop's trail loop sets every cell of
  the drop's column from the drop's row upward for up to \<open>DROP_LIFE_SPAN = 7\<close> rows, inside
  the grid, to the drop's colour with life \<open>DROP_LIFE_SPAN\<close> minus the cell's distance from
  the head row, whatever the cell held; the head cell receives life 7. The tick runs
  that loop on the grid as the earlier drops of the list left it, and the loops of the
  later drops after it.
\<close>

theorem trail_paint:
  assumes "activeDrops st = pre @ d # post"
    and "i \<le> row d" "row d < i + DROP_LIFE_SPAN"
    and "i < gridRows st" "col d < gridCols st"
    and "wfGrid (gridRows st) (gridCols st) gr"
  shows "gridState (tick rnd st) =
           fold (paintTrail (gridRows st) (gridCols st)) post
             (paintTrail (gridRows st) (gridCols st) d
                (fold (paintTrail (gridRows st) (gridCols st)) pre
                   (decayGrid (gridRows st) (gridCols st)
                      (copyGrid (gridRows st) (gridCols st) (gridState st))))) \<and>
         paintTrail (gridRows st) (gridCols st) d
           (fold (paintTrail (gridRows st) (gridCols st)) pre
              (decayGrid (gridRows st) (gridCols st)
                 (copyGrid (gridRows st) (gridCols st) (gridState st)))) ! i ! col d =
           Painted (fst (color d)) (fst (snd (color d))) (snd (snd (color d)))
             (int DROP_LIFE_SPAN - int (row d - i)) \<and>
         paintTrail (gridRows st) (gridCols st) d gr ! i ! col d =
           Painted (fst (color d)) (fst (snd (color d))) (snd (snd (color d)))
             (int DROP_LIFE_SPAN - int (row d - i)) \<and>
         (i = row d \<longrightarrow>
            paintTrail (gridRows st) (gridCols st) d gr ! i ! col d =
              Painted (fst (color d)) (fst (snd (color d))) (snd (snd (color d))) 7)"
proof -
  let ?R = "gridRows st" and ?C = "gridCols st"
  let ?before = "fold (paintTrail ?R ?C) pre (decayGrid ?R ?C (copyGrid ?R ?C (gridState st)))"
  have wf: "wfGrid ?R ?C ?before"
    by (intro paintAll_wf decayGrid_wf copyGrid_wf)
  have 1: "gridState (tick rnd st) = fold (paintTrail ?R ?C) post (paintTrail ?R ?C d ?before)"
    by (simp add: tick_gridState assms(1))
  note 2 = trail_step[OF wf assms(2,3,4,5)]
  note 3 = trail_step[OF assms(6) assms(2,3,4,5)]
  have 4: "i = row d \<longrightarrow>
            paintTrail ?R ?C d gr ! i ! col d =
              Painted (fst (color d)) (fst (snd (color d))) (snd (snd (color d))) 7"
    using 3 by (auto simp: DROP_LIFE_SPAN_def)
  from 1 2 3 4 show ?thesis by blast
qed

text \<open>
  The third tick of the 1 by 1 run, for the older of its two drops: it is at row 1, one
  row below the grid, and its loop sets cell (0, 0), at distance 1, to its colour with
  life 6.
\<close>

theorem trail_paint_witness:
  "activeDrops (tick id (tick id run1x1)) =
     [] @ \<lparr>col = 0, row = 1, color = (255, 0, 0)\<rparr> # [\<lparr>col = 0, row = 0, color = (255, 12, 0)\<rparr>] \<and>
   gridRows (tick id (tick id run1x1)) = 1 \<and> gridCols (tick id (tick id run1x1)) = 1 \<and>
   wfGrid 1 1 [[EmptyObject]] \<and>
   paintTrail 1 1 \<lparr>col = 0, row = 1, color = (255, 0, 0)\<rparr> [[EmptyObject]] ! 0 ! 0 =
     Painted 255 0 0 6 \<and>
   paintTrail 1 1 \<lparr>col = 0, row = 1, color = (255, 0, 0)\<rparr>
     (fold (paintTrail 1 1) []
        (decayGrid 1 1 (copyGrid 1 1 (gridState (tick id (tick id run1x1)))))) ! 0 ! 0 =
     Painted 255 0 0 6"
proof -
  have h: "activeDrops (tick id (tick id run1x1)) =
     [] @ \<lparr>col = 0, row = 1, color = (255, 0, 0)\<rparr> # [\<lparr>col = 0, row = 0, color = (255, 12, 0)\<rparr>]"
    by (simp add: run1x1_tick2)
  have d: "gridRows (tick id (tick id run1x1)) = 1" "gridCols (tick id (tick id run1x1)) = 1"
    by (simp_all add: run1x1_tick2)
  have w: "wfGrid (gridRows (tick id (tick id run1x1))) (gridCols (tick id (tick id run1x1)))
             [[EmptyObject]]"
    unfolding d by (simp add: wfGrid_def)
  from trail_paint[OF h _ _ _ _ w, of 0 id] d h w show ?thesis
    by (simp add: DROP_LIFE_SPAN_def)
qed

subsection \<open>C5: the first two ticks on 15 by 20\<close>

text \<open>
  Claim C5, amended. From a freshly initialised 15 by 20 grid, whatever the shuffle
  draws: after tick 1 exactly one drop exists, at row 0, with the first spectrum colour;
  after tick 2 that drop is at row 1 and the cell at row 0 of its column has been painted
  with the drop's colour and life 7. The trail is painted at the row the drop had before
  it advanced, at distance 0.
\<close>

theorem first_two_ticks_15x20:
  "\<exists>c<20.
     activeDrops (tick r1 (effectReset r0 15 20)) =
       [\<lparr>col = c, row = 0, color = SMOOTH_VIBGYOR_COLORS ! 0\<rparr>] \<and>
     activeDrops (tick r2 (tick r1 (effectReset r0 15 20))) ! 0 =
       \<lparr>col = c, row = 1, color = SMOOTH_VIBGYOR_COLORS ! 0\<rparr> \<and>
     gridState (tick r2 (tick r1 (effectReset r0 15 20))) ! 0 ! c =
       Painted 255 0 0 (int DROP_LIFE_SPAN)"
  using two_ticks_from_mount[of r1 r0 r2] by (simp add: spectrum_0 DROP_LIFE_SPAN_def)

text \<open>With the identity draws the drop is in column 0 and the cell does not hold life 6.\<close>

theorem second_tick_life_is_seven:
  "activeDrops (tick id (effectReset id 15 20)) = [\<lparr>col = 0, row = 0, color = (255, 0, 0)\<rparr>] \<and>
   activeDrops (tick id (tick id (effectReset id 15 20))) ! 0 =
     \<lparr>col = 0, row = 1, color = (255, 0, 0)\<rparr> \<and>
   gridState (tick id (tick id (effectReset id 15 20))) ! 0 ! 0 \<noteq> Painted 255 0 0 6"
  using two_ticks_from_mount_id by simp

subsection \<open>C6: length of the generated spectrum\<close>

text \<open>
  Claim C6. For 7 requested steps the generator returns 6 entries: one step per
  segment, six segments, and \<open>slice(0, 7)\<close> adds nothing. The claim and the comment at
  lines 36-37 of App.jsx ask for exactly the requested number.
\<close>

theorem spectrum_of_seven_steps_has_six_entries:
  "length (generateSmoothSpectrum 7) = 6 \<and>
   generateSmoothSpectrum 7 =
     [(255, 0, 0), (255, 255, 0), (0, 255, 0), (0, 255, 255), (0, 0, 255), (255, 0, 255)]"
  by (simp add: generateSmoothSpectrum_def Let_def ramp_def)

subsection \<open>C7: shape of the cells\<close>

text \<open>
  Claim C7, amended. At every reachable state of the animation every grid cell that
  carries a life carries an integer between 0 and \<open>DROP_LIFE_SPAN\<close>, and every tick
  preserves this. A cell whose life has reached 0 stays in the grid for one tick.
\<close>

theorem cell_life_range:
  "(reachable st \<longrightarrow> gridLifeOk (gridState st)) \<and>
   (gridLifeOk (gridState st) \<longrightarrow> gridLifeOk (gridState (tick rnd st)))"
  by (simp add: reachable_gridLifeOk tick_gridLifeOk)

text \<open>The state after the first tick of the 1 by 1 run, and the tick from it.\<close>

theorem cell_life_range_witness:
  "reachable (tick id run1x1) \<and> gridLifeOk (gridState (tick id run1x1)) \<and>
   gridLifeOk (gridState (tick id (tick id run1x1)))"
proof -
  have r: "reachable (tick id run1x1)"
    by (rule reachable.ticked[OF reachable_run1x1])
  from cell_life_range[of "tick id run1x1" id] r show ?thesis by simp
qed

text \<open>
  Life is not always positive: after nine ticks of the 15 by 1 run the cell (0, 0) holds
  life 0.
\<close>

theorem cell_life_zero_reachable:
  "reachable ((tick id ^^ 9) run15x1) \<and>
   gridState ((tick id ^^ 9) run15x1) ! 0 ! 0 = Painted 255 0 0 0"
  by (simp add: reachable_funpow reachable_run15x1 run15x1_tick9_cell)

subsection \<open>C8: resize\<close>

text \<open>
  Claim C8. An input that changes the number of rows or of columns resets the animation:
  no active drops, colour index 0, a queue of \<open>max 1 (cols div 4)\<close> distinct columns of
  the new width, and a grid of the new dimensions with every cell \<open>null\<close>.
\<close>

theorem resize_resets:
  assumes "0 < gridCols st"
  shows "(nat (clampDimension v) \<noteq> gridRows st \<longrightarrow>
            resetTo (nat (clampDimension v)) (gridCols st) (onRowsChange rnd v st)) \<and>
         (nat (clampDimension v) \<noteq> gridCols st \<longrightarrow>
            resetTo (gridRows st) (nat (clampDimension v)) (onColsChange rnd v st))"
proof -
  have "0 < nat (clampDimension v)" using clampDimension_range[of v] by simp
  then show ?thesis
    using assms by (simp add: onRowsChange_def onColsChange_def Let_def effectReset_resetTo)
qed

text \<open>From 15 by 20 to 5 by 5: rows first, then columns.\<close>

theorem resize_resets_witness:
  "0 < gridCols (onRowsChange id (Some 5) (effectReset id 15 20)) \<and>
   nat (clampDimension (Some 5)) \<noteq> gridCols (onRowsChange id (Some 5) (effectReset id 15 20)) \<and>
   resetTo 5 5 (onColsChange id (Some 5) (onRowsChange id (Some 5) (effectReset id 15 20)))"
proof -
  have g: "gridCols (onRowsChange id (Some 5) (effectReset id 15 20)) = 20"
    "gridRows (onRowsChange id (Some 5) (effectReset id 15 20)) = 5"
    by (simp_all add: onRowsChange_def Let_def clampDimension_cases effectReset_def)
  have c: "nat (clampDimension (Some 5)) = 5" by (simp add: clampDimension_cases)
  from resize_resets[of "onRowsChange id (Some 5) (effectReset id 15 20)" "Some 5" id]
  show ?thesis unfolding g c by simp
qed

subsection \<open>C9: dimension clamp\<close>




subsection \<open>C10: grid accesses stay in bounds\<close>

text \<open>
  Claim C10. For every state, whatever the size of the previous grid and whatever
  columns wait in the queue or sit in the drops, the tick with checked accesses never
  reports \<open>OutOfRange\<close> and computes the same state as the tick.
\<close>

theorem tick_accesses_in_bounds: "tickChecked rnd st = Inr (tick rnd st)"
  by (simp add: tickChecked_def tick_def Let_def copyGridChecked_ok decayGridChecked_ok
      copyGrid_wf decayGrid_wf dropPhaseChecked_ok dropPhase_def)

end
